theory Spec2Isabelle
  imports Main
begin

section \<open>The relational store\<close>

text \<open>
  The storage layer talks to an SQLite database through SQL text. The embedding keeps the
  tables the entry engine reads and writes as lists of rows, in rowid order, and gives
  every statement of the source the meaning SQLite gives it on those rows. Timestamps
  (\<open>DATETIME\<close> columns, \<open>datetime('now')\<close>, Go's \<open>time.Time\<close>) are integers counting
  seconds; the reading of the clock is an argument \<open>now\<close> of every operation that asks
  for it. Go's \<open>int64\<close> identifiers are integers. The \<open>starred\<close> column holds 0 or 1 and
  is a boolean here, as it is in the Go struct.
\<close>

type_synonym timestamp = int

text \<open>Table \<open>entries\<close>, with the columns the migrations give it.\<close>

record entry_row =
  e_id :: int
  e_user_id :: int
  e_feed_id :: int
  e_hash :: string
  e_published_at :: timestamp
  e_title :: string
  e_url :: string
  e_comments_url :: string
  e_author :: string
  e_content :: string
  e_status :: string
  e_starred :: bool
  e_changed_at :: timestamp
  e_share_code :: string
  e_reading_time :: int
  e_created_at :: timestamp
  e_tags :: "string list"

text \<open>Tables \<open>feeds\<close> and \<open>categories\<close>: the columns the entry queries join on.\<close>

record feed_row =
  f_id :: int
  f_user_id :: int
  f_category_id :: int
  f_hide_globally :: bool

record category_row =
  c_id :: int
  c_user_id :: int
  c_hide_globally :: bool

text \<open>Go's \<open>model.Enclosure\<close>, also the row of table \<open>enclosures\<close>.\<close>

record Enclosure =
  enc_UserID :: int
  enc_EntryID :: int
  enc_URL :: string
  enc_Size :: int
  enc_MimeType :: string

text \<open>
  The database: the ids of table \<open>users\<close>, the four tables above, and the counter SQLite
  keeps for \<open>entries.id\<close> (\<open>INTEGER PRIMARY KEY AUTOINCREMENT\<close>): the largest id handed
  out so far.
\<close>

record db =
  users :: "int list"
  categories :: "category_row list"
  feeds :: "feed_row list"
  entries :: "entry_row list"
  entries_seq :: int
  enclosures :: "Enclosure list"

text \<open>
  Modelled from the spec: the status constants of package \<open>model\<close>, which is not among the
  sources. Their values are the three the \<open>CHECK\<close> constraint of \<open>entries.status\<close> admits.
\<close>

definition EntryStatusUnread :: string where
  "EntryStatusUnread = ''unread''"

definition EntryStatusRead :: string where
  "EntryStatusRead = ''read''"

definition EntryStatusRemoved :: string where
  "EntryStatusRemoved = ''removed''"

text \<open>\<open>CHECK (status IN ('unread', 'read', 'removed'))\<close>\<close>

definition status_check :: "string \<Rightarrow> bool" where
  "status_check s \<longleftrightarrow> s = ''unread'' \<or> s = ''read'' \<or> s = ''removed''"

datatype sql_error =
  ForeignKeyViolation
  | UniqueViolation
  | CheckViolation
  | NoSuchColumn string
  | SyntaxError

text \<open>
  The errors of the storage layer. Go builds them as formatted strings; each constructor
  stands for one format string and carries what the format prints.
\<close>

datatype error =
  ErrNothingUpdated
  | ErrNoEntryToUpdate
  | ErrCreateEntry string int sql_error
  | ErrUpdateEntry string
  | ErrUpdateStatuses "int list" sql_error
  | ErrPaginationPrev sql_error
  | ErrPaginationNext sql_error
  | ErrEnclosure string

text \<open>
  \<open>UPDATE entries SET ... WHERE P\<close>: every row that satisfies \<open>P\<close> is rewritten by \<open>f\<close>;
  the result carries \<open>RowsAffected\<close>, the number of rows that satisfied \<open>P\<close>.
\<close>

definition sql_update ::
  "(entry_row \<Rightarrow> bool) \<Rightarrow> (entry_row \<Rightarrow> entry_row) \<Rightarrow> db \<Rightarrow> nat \<times> db" where
  "sql_update P f d =
     (length (filter P (entries d)),
      d\<lparr>entries := map (\<lambda>r. if P r then f r else r) (entries d)\<rparr>)"

text \<open>
  The primary key of \<open>entries\<close>: ids are pairwise different, positive, and none exceeds
  the counter. The key \<open>UNIQUE (feed_id, hash)\<close>.
\<close>

definition entries_pk :: "db \<Rightarrow> bool" where
  "entries_pk d \<longleftrightarrow>
     distinct (map e_id (entries d)) \<and>
     (\<forall>r \<in> set (entries d). 0 < e_id r \<and> e_id r \<le> entries_seq d)"

definition entries_feed_hash_key :: "db \<Rightarrow> bool" where
  "entries_feed_hash_key d \<longleftrightarrow> distinct (map (\<lambda>r. (e_feed_id r, e_hash r)) (entries d))"

section \<open>The stale entry reaper\<close>

text \<open>
  \<open>cleanupEntries\<close>: nothing at all for an empty list of hashes; otherwise
  \<open>DELETE FROM entries WHERE feed_id=? AND status=? AND hash NOT IN (...)\<close>. Foreign keys
  are switched on, so the enclosures of a deleted entry go with it
  (\<open>ON DELETE CASCADE\<close>).
\<close>

definition cleanup_doomed :: "int \<Rightarrow> string list \<Rightarrow> entry_row \<Rightarrow> bool" where
  "cleanup_doomed feedID entryHashes r \<longleftrightarrow>
     e_feed_id r = feedID \<and> e_status r = EntryStatusRemoved \<and> e_hash r \<notin> set entryHashes"

definition cleanupEntries :: "int \<Rightarrow> string list \<Rightarrow> db \<Rightarrow> error option \<times> db" where
  "cleanupEntries feedID entryHashes d =
     (if length entryHashes = 0 then (None, d)
      else
        let gone = map e_id (filter (cleanup_doomed feedID entryHashes) (entries d))
        in (None,
            d\<lparr>entries := filter (\<lambda>r. \<not> cleanup_doomed feedID entryHashes r) (entries d),
              enclosures := filter (\<lambda>x. enc_EntryID x \<notin> set gone) (enclosures d)\<rparr>))"

section \<open>Bulk status operations\<close>

text \<open>
  \<open>ArchiveEntries\<close>. The subquery picks, oldest first, at most \<open>limit\<close> ids of entries
  with the given status that are not starred, carry no share code and were created
  before \<open>datetime('now', '-days days')\<close>; the update marks the rows with those ids as
  removed. Rows created at the same instant are taken in rowid order.
\<close>

definition archive_candidate :: "timestamp \<Rightarrow> string \<Rightarrow> int \<Rightarrow> entry_row \<Rightarrow> bool" where
  "archive_candidate now status days r \<longleftrightarrow>
     e_status r = status \<and> \<not> e_starred r \<and> e_share_code r = '''' \<and>
     e_created_at r < now - days * 86400"

definition ArchiveEntries ::
  "timestamp \<Rightarrow> string \<Rightarrow> int \<Rightarrow> int \<Rightarrow> db \<Rightarrow> (error + int) \<times> db" where
  "ArchiveEntries now status days limit d =
     (if days < 0 \<or> limit \<le> 0 then (Inr 0, d)
      else
        let ids = map e_id (take (nat limit)
                    (sort_key e_created_at (filter (archive_candidate now status days) (entries d))));
            (count, d') = sql_update (\<lambda>r. e_id r \<in> set ids)
                            (\<lambda>r. r\<lparr>e_status := EntryStatusRemoved\<rparr>) d
        in (Inr (int count), d'))"

text \<open>
  \<open>SetEntriesStatus\<close>. A status outside the \<open>CHECK\<close> constraint makes the statement fail
  as soon as one row would be written; the statement then changes nothing.
\<close>

definition SetEntriesStatus ::
  "timestamp \<Rightarrow> int \<Rightarrow> int list \<Rightarrow> string \<Rightarrow> db \<Rightarrow> error option \<times> db" where
  "SetEntriesStatus now userID entryIDs status d =
     (if length entryIDs = 0 then (None, d)
      else
        let (count, d') = sql_update (\<lambda>r. e_user_id r = userID \<and> e_id r \<in> set entryIDs)
                            (\<lambda>r. r\<lparr>e_status := status, e_changed_at := now\<rparr>) d
        in if 0 < count \<and> \<not> status_check status
           then (Some (ErrUpdateStatuses entryIDs CheckViolation), d)
           else (None, d'))"

definition SetEntriesBookmarkedState ::
  "timestamp \<Rightarrow> int \<Rightarrow> int list \<Rightarrow> bool \<Rightarrow> db \<Rightarrow> error option \<times> db" where
  "SetEntriesBookmarkedState now userID entryIDs starred d =
     (if length entryIDs = 0 then (None, d)
      else
        let (count, d') = sql_update (\<lambda>r. e_user_id r = userID \<and> e_id r \<in> set entryIDs)
                            (\<lambda>r. r\<lparr>e_starred := starred, e_changed_at := now\<rparr>) d
        in if count = 0 then (Some ErrNothingUpdated, d') else (None, d'))"

text \<open>\<open>ToggleBookmark\<close>: \<open>starred = CASE WHEN starred = 1 THEN 0 ELSE 1 END\<close>.\<close>

definition ToggleBookmark :: "timestamp \<Rightarrow> int \<Rightarrow> int \<Rightarrow> db \<Rightarrow> error option \<times> db" where
  "ToggleBookmark now userID entryID d =
     (let (count, d') = sql_update (\<lambda>r. e_user_id r = userID \<and> e_id r = entryID)
                          (\<lambda>r. r\<lparr>e_starred := (if e_starred r then False else True),
                                 e_changed_at := now\<rparr>) d
      in if count = 0 then (Some ErrNothingUpdated, d') else (None, d'))"

definition FlushHistory :: "timestamp \<Rightarrow> int \<Rightarrow> db \<Rightarrow> error option \<times> db" where
  "FlushHistory now userID d =
     (let (count, d') = sql_update
                          (\<lambda>r. e_user_id r = userID \<and> e_status r = EntryStatusRead \<and>
                               \<not> e_starred r \<and> e_share_code r = '''')
                          (\<lambda>r. r\<lparr>e_status := EntryStatusRemoved, e_changed_at := now\<rparr>) d
      in (None, d'))"

text \<open>The mark-as-read family: each one statement from unread to read.\<close>

definition mark_read :: "timestamp \<Rightarrow> entry_row \<Rightarrow> entry_row" where
  "mark_read now r = r\<lparr>e_status := EntryStatusRead, e_changed_at := now\<rparr>"

definition MarkAllAsRead :: "timestamp \<Rightarrow> int \<Rightarrow> db \<Rightarrow> error option \<times> db" where
  "MarkAllAsRead now userID d =
     (let (count, d') = sql_update
                          (\<lambda>r. e_user_id r = userID \<and> e_status r = EntryStatusUnread)
                          (mark_read now) d
      in (None, d'))"

definition MarkAllAsReadBeforeDate ::
  "timestamp \<Rightarrow> int \<Rightarrow> timestamp \<Rightarrow> db \<Rightarrow> error option \<times> db" where
  "MarkAllAsReadBeforeDate now userID before d =
     (let (count, d') = sql_update
                          (\<lambda>r. e_user_id r = userID \<and> e_status r = EntryStatusUnread \<and>
                               e_published_at r < before)
                          (mark_read now) d
      in (None, d'))"

definition MarkGloballyVisibleFeedsAsRead :: "timestamp \<Rightarrow> int \<Rightarrow> db \<Rightarrow> error option \<times> db" where
  "MarkGloballyVisibleFeedsAsRead now userID d =
     (let visible = map f_id (filter (\<lambda>f. f_user_id f = userID \<and> \<not> f_hide_globally f) (feeds d));
          (count, d') = sql_update
                          (\<lambda>r. e_feed_id r \<in> set visible \<and> e_user_id r = userID \<and>
                               e_status r = EntryStatusUnread)
                          (mark_read now) d
      in (None, d'))"

definition MarkFeedAsRead ::
  "timestamp \<Rightarrow> int \<Rightarrow> int \<Rightarrow> timestamp \<Rightarrow> db \<Rightarrow> error option \<times> db" where
  "MarkFeedAsRead now userID feedID before d =
     (let (count, d') = sql_update
                          (\<lambda>r. e_user_id r = userID \<and> e_feed_id r = feedID \<and>
                               e_status r = EntryStatusUnread \<and> e_published_at r < before)
                          (mark_read now) d
      in (None, d'))"

definition MarkCategoryAsRead ::
  "timestamp \<Rightarrow> int \<Rightarrow> int \<Rightarrow> timestamp \<Rightarrow> db \<Rightarrow> error option \<times> db" where
  "MarkCategoryAsRead now userID categoryID before d =
     (let inCategory = map f_id (filter (\<lambda>f. f_user_id f = userID \<and> f_category_id f = categoryID)
                                   (feeds d));
          (count, d') = sql_update
                          (\<lambda>r. e_feed_id r \<in> set inCategory \<and> e_user_id r = userID \<and>
                               e_status r = EntryStatusUnread \<and> e_published_at r < before)
                          (mark_read now) d
      in (None, d'))"

section \<open>The entry reconciler\<close>

text \<open>
  Go's \<open>model.Entry\<close>, with the fields the reconciler reads or writes. \<open>Date\<close> is the
  publication time of the item.
\<close>

record Entry =
  ID :: int
  UserID :: int
  FeedID :: int
  Status :: string
  Hash :: string
  Title :: string
  URL :: string
  CommentsURL :: string
  Date :: timestamp
  CreatedAt :: timestamp
  ChangedAt :: timestamp
  Content :: string
  Author :: string
  ReadingTime :: int
  Enclosures :: "Enclosure list"
  Tags :: "string list"

text \<open>
  Modelled from the spec: \<open>createEnclosure\<close> and \<open>updateEnclosures\<close> are called by the
  reconciler but are not among the sources. The spec has them insert, and upsert, the
  enclosures of one entry. They are parameters here: any two functions on table
  \<open>enclosures\<close>, each of which may fail.
\<close>

record enclosure_store =
  createEnclosure :: "Enclosure \<Rightarrow> Enclosure list \<Rightarrow> error + Enclosure list"
  updateEnclosures :: "Entry \<Rightarrow> Enclosure list \<Rightarrow> error + Enclosure list"

text \<open>The row \<open>createEntry\<close> inserts; columns it does not name take their defaults.\<close>

definition new_entry_row :: "timestamp \<Rightarrow> int \<Rightarrow> Entry \<Rightarrow> entry_row" where
  "new_entry_row now newID entry =
     \<lparr>e_id = newID, e_user_id = UserID entry, e_feed_id = FeedID entry, e_hash = Hash entry,
      e_published_at = Date entry, e_title = Title entry, e_url = URL entry,
      e_comments_url = CommentsURL entry, e_author = Author entry, e_content = Content entry,
      e_status = ''unread'', e_starred = False, e_changed_at = now, e_share_code = '''',
      e_reading_time = ReadingTime entry, e_created_at = now, e_tags = Tags entry\<rparr>"

text \<open>The loop of \<open>createEntry\<close> over the enclosures; it stops at the first error.\<close>

fun createEnclosures ::
  "enclosure_store \<Rightarrow> Enclosure list \<Rightarrow> Enclosure list \<Rightarrow> error + Enclosure list" where
  "createEnclosures s [] tbl = Inr tbl"
| "createEnclosures s (enclosure # rest) tbl =
     (case createEnclosure s enclosure tbl of
        Inl err \<Rightarrow> Inl err
      | Inr tbl' \<Rightarrow> createEnclosures s rest tbl')"

definition bind_enclosures :: "int \<Rightarrow> int \<Rightarrow> Enclosure list \<Rightarrow> Enclosure list" where
  "bind_enclosures entryID userID encs =
     map (\<lambda>enclosure. enclosure\<lparr>enc_EntryID := entryID, enc_UserID := userID\<rparr>) encs"

text \<open>
  \<open>createEntry\<close>. The insert fails on a user or a feed that does not exist (foreign keys)
  and on a feed and hash already stored (\<open>UNIQUE (feed_id, hash)\<close>). The new id is the
  counter plus one.
\<close>

definition createEntry ::
  "enclosure_store \<Rightarrow> timestamp \<Rightarrow> Entry \<Rightarrow> db \<Rightarrow> error + (Entry \<times> db)" where
  "createEntry s now entry d =
     (if UserID entry \<notin> set (users d) \<or> FeedID entry \<notin> set (map f_id (feeds d))
      then Inl (ErrCreateEntry (URL entry) (FeedID entry) ForeignKeyViolation)
      else if \<exists>r \<in> set (entries d). e_feed_id r = FeedID entry \<and> e_hash r = Hash entry
      then Inl (ErrCreateEntry (URL entry) (FeedID entry) UniqueViolation)
      else
        let newID = entries_seq d + 1;
            entry' = entry\<lparr>ID := newID, Status := ''unread'', CreatedAt := now, ChangedAt := now,
                           Enclosures := bind_enclosures newID (UserID entry) (Enclosures entry)\<rparr>
        in case createEnclosures s (Enclosures entry') (enclosures d) of
             Inl err \<Rightarrow> Inl err
           | Inr tbl \<Rightarrow>
               Inr (entry', d\<lparr>entries := entries d @ [new_entry_row now newID entry],
                              entries_seq := newID, enclosures := tbl\<rparr>))"

text \<open>
  \<open>updateEntry\<close>: the update names seven columns and no other; the row is found by user,
  feed and hash. No row written is an error.
\<close>

definition update_target :: "Entry \<Rightarrow> entry_row \<Rightarrow> bool" where
  "update_target entry r \<longleftrightarrow>
     e_user_id r = UserID entry \<and> e_feed_id r = FeedID entry \<and> e_hash r = Hash entry"

definition refresh_row :: "Entry \<Rightarrow> entry_row \<Rightarrow> entry_row" where
  "refresh_row entry r =
     r\<lparr>e_title := Title entry, e_url := URL entry, e_comments_url := CommentsURL entry,
       e_content := Content entry, e_author := Author entry,
       e_reading_time := ReadingTime entry, e_tags := Tags entry\<rparr>"

definition updateEntry :: "enclosure_store \<Rightarrow> Entry \<Rightarrow> db \<Rightarrow> error + (Entry \<times> db)" where
  "updateEntry s entry d =
     (let (rowsAffected, d1) = sql_update (update_target entry) (refresh_row entry) d
      in if rowsAffected = 0 then Inl ErrNoEntryToUpdate
         else
           case find (update_target entry) (entries d1) of
             None \<Rightarrow> Inl (ErrUpdateEntry (URL entry))
           | Some r \<Rightarrow>
               (let entry' = entry\<lparr>ID := e_id r,
                                   Enclosures := bind_enclosures (e_id r) (UserID entry)
                                                   (Enclosures entry)\<rparr>
                in (case updateEnclosures s entry' (enclosures d1) of
                      Inl err \<Rightarrow> Inl err
                    | Inr tbl \<Rightarrow> Inr (entry', d1\<lparr>enclosures := tbl\<rparr>))))"

text \<open>\<open>entryExists\<close>: by feed and hash, whoever owns the row.\<close>

definition entryExists :: "Entry \<Rightarrow> db \<Rightarrow> bool" where
  "entryExists entry d \<longleftrightarrow>
     (\<exists>r \<in> set (entries d). e_feed_id r = FeedID entry \<and> e_hash r = Hash entry)"

text \<open>
  \<open>RefreshFeedEntries\<close>. Each candidate runs in a transaction of its own: an error rolls
  the candidate back, so the database stays as the last commit left it, and returns at
  once. The function goes through the candidates with the entries created so far and
  the hashes seen so far. The goroutine started after the last candidate is the third
  component of the result: the feed and the hashes \<open>cleanupEntries\<close> will be called with,
  or \<open>None\<close> when no goroutine was started.
\<close>

fun refresh_loop ::
  "enclosure_store \<Rightarrow> timestamp \<Rightarrow> int \<Rightarrow> int \<Rightarrow> bool \<Rightarrow> Entry list \<Rightarrow> Entry list \<Rightarrow>
   string list \<Rightarrow> db \<Rightarrow> (error + Entry list) \<times> db \<times> (int \<times> string list) option" where
  "refresh_loop s now userID feedID updateExistingEntries [] newEntries entryHashes d =
     (Inr newEntries, d, Some (feedID, entryHashes))"
| "refresh_loop s now userID feedID updateExistingEntries (e # rest) newEntries entryHashes d =
     (let entry = e\<lparr>UserID := userID, FeedID := feedID\<rparr>
      in if entryExists entry d then
           (if updateExistingEntries then
              (case updateEntry s entry d of
                 Inl err \<Rightarrow> (Inl err, d, None)
               | Inr (entry', d') \<Rightarrow>
                   refresh_loop s now userID feedID updateExistingEntries rest newEntries
                     (entryHashes @ [Hash entry']) d')
            else
              refresh_loop s now userID feedID updateExistingEntries rest newEntries
                (entryHashes @ [Hash entry]) d)
         else
           (case createEntry s now entry d of
              Inl err \<Rightarrow> (Inl err, d, None)
            | Inr (entry', d') \<Rightarrow>
                refresh_loop s now userID feedID updateExistingEntries rest
                  (newEntries @ [entry']) (entryHashes @ [Hash entry']) d'))"

definition RefreshFeedEntries ::
  "enclosure_store \<Rightarrow> timestamp \<Rightarrow> int \<Rightarrow> int \<Rightarrow> Entry list \<Rightarrow> bool \<Rightarrow> db \<Rightarrow>
   (error + Entry list) \<times> db \<times> (int \<times> string list) option" where
  "RefreshFeedEntries s now userID feedID candidates updateExistingEntries d =
     refresh_loop s now userID feedID updateExistingEntries candidates [] [] d"

text \<open>
  The goroutine, whenever it runs: it calls \<open>cleanupEntries\<close> and only logs an error.
\<close>

definition run_cleanup :: "(int \<times> string list) option \<Rightarrow> db \<Rightarrow> db" where
  "run_cleanup task d =
     (case task of
        None \<Rightarrow> d
      | Some (feedID, entryHashes) \<Rightarrow> snd (cleanupEntries feedID entryHashes d))"

text \<open>The rows stored for one feed and hash.\<close>

definition stored :: "int \<Rightarrow> string \<Rightarrow> db \<Rightarrow> entry_row list" where
  "stored feedID h d = filter (\<lambda>r. e_feed_id r = feedID \<and> e_hash r = h) (entries d)"

section \<open>The pagination navigator\<close>

text \<open>
  A row of \<open>entries AS e JOIN feeds AS f JOIN categories c\<close>. A condition of the builder
  is an SQL fragment with its bound argument; it is kept as the predicate on joined rows
  that the fragment denotes.
\<close>

type_synonym joined_row = "entry_row \<times> feed_row \<times> category_row"

record EntryPaginationBuilder =
  pb_conditions :: "(joined_row \<Rightarrow> bool) list"
  pb_entryID :: int
  pb_order :: string
  pb_direction :: string

definition NewEntryPaginationBuilder ::
  "int \<Rightarrow> int \<Rightarrow> string \<Rightarrow> string \<Rightarrow> EntryPaginationBuilder" where
  "NewEntryPaginationBuilder userID entryID ord dir =
     \<lparr>pb_conditions = [\<lambda>(e, f, c). e_user_id e = userID, \<lambda>(e, f, c). e_status e \<noteq> ''removed''],
      pb_entryID = entryID, pb_order = ord, pb_direction = dir\<rparr>"

definition WithStarred :: "EntryPaginationBuilder \<Rightarrow> EntryPaginationBuilder" where
  "WithStarred b = b\<lparr>pb_conditions := pb_conditions b @ [\<lambda>(e, f, c). e_starred e]\<rparr>"

definition WithFeedID :: "int \<Rightarrow> EntryPaginationBuilder \<Rightarrow> EntryPaginationBuilder" where
  "WithFeedID feedID b =
     (if feedID \<noteq> 0
      then b\<lparr>pb_conditions := pb_conditions b @ [\<lambda>(e, f, c). e_feed_id e = feedID]\<rparr>
      else b)"

definition WithCategoryID :: "int \<Rightarrow> EntryPaginationBuilder \<Rightarrow> EntryPaginationBuilder" where
  "WithCategoryID categoryID b =
     (if categoryID \<noteq> 0
      then b\<lparr>pb_conditions := pb_conditions b @ [\<lambda>(e, f, c). f_category_id f = categoryID]\<rparr>
      else b)"

definition WithStatus :: "string \<Rightarrow> EntryPaginationBuilder \<Rightarrow> EntryPaginationBuilder" where
  "WithStatus status b =
     (if status \<noteq> ''''
      then b\<lparr>pb_conditions := pb_conditions b @ [\<lambda>(e, f, c). e_status e = status]\<rparr>
      else b)"

definition WithGloballyVisible :: "EntryPaginationBuilder \<Rightarrow> EntryPaginationBuilder" where
  "WithGloballyVisible b =
     b\<lparr>pb_conditions := pb_conditions b @
          [\<lambda>(e, f, c). \<not> c_hide_globally c, \<lambda>(e, f, c). \<not> f_hide_globally f]\<rparr>"

text \<open>
  The column \<open>e.order\<close> sorts by. The columns of \<open>entries\<close> that hold numbers or times are
  covered; the callers pass \<open>published_at\<close> or \<open>created_at\<close>. Any other name is answered
  as a column that does not exist.
\<close>

definition order_column :: "string \<Rightarrow> (entry_row \<Rightarrow> int) option" where
  "order_column name =
     (if name = ''published_at'' then Some e_published_at
      else if name = ''created_at'' then Some e_created_at
      else if name = ''changed_at'' then Some e_changed_at
      else if name = ''id'' then Some e_id
      else if name = ''user_id'' then Some e_user_id
      else if name = ''feed_id'' then Some e_feed_id
      else if name = ''reading_time'' then Some e_reading_time
      else None)"

definition joined_rows :: "db \<Rightarrow> joined_row list" where
  "joined_rows d =
     concat (map (\<lambda>e.
       concat (map (\<lambda>f. map (\<lambda>c. (e, f, c)) (filter (\<lambda>c. c_id c = f_category_id f) (categories d)))
                 (filter (\<lambda>f. f_id f = e_feed_id e) (feeds d))))
       (entries d))"

definition satisfies :: "(joined_row \<Rightarrow> bool) list \<Rightarrow> joined_row \<Rightarrow> bool" where
  "satisfies conds x \<longleftrightarrow> list_all (\<lambda>c. c x) conds"

text \<open>\<open>(SELECT order FROM entries WHERE id = ?)\<close>: \<open>NULL\<close>, here \<open>None\<close>, without such a row.\<close>

definition anchor_value :: "(entry_row \<Rightarrow> int) \<Rightarrow> int \<Rightarrow> db \<Rightarrow> int option" where
  "anchor_value key entryID d = map_option key (find (\<lambda>r. e_id r = entryID) (entries d))"

text \<open>The last conjunct of each \<open>WHERE\<close> clause.\<close>

definition prev_candidate :: "(entry_row \<Rightarrow> int) \<Rightarrow> int \<Rightarrow> int \<Rightarrow> joined_row \<Rightarrow> bool" where
  "prev_candidate key v entryID x \<longleftrightarrow>
     key (fst x) < v \<or> (key (fst x) = v \<and> e_id (fst x) > entryID)"

definition next_candidate :: "(entry_row \<Rightarrow> int) \<Rightarrow> int \<Rightarrow> int \<Rightarrow> joined_row \<Rightarrow> bool" where
  "next_candidate key v entryID x \<longleftrightarrow>
     key (fst x) > v \<or> (key (fst x) = v \<and> e_id (fst x) < entryID)"

text \<open>
  \<open>ORDER BY e.order DESC, e.created_at DESC, e.id ASC\<close> and
  \<open>ORDER BY e.order ASC, e.created_at ASC, e.id DESC\<close>: when one row sorts strictly
  before another.
\<close>

definition prev_before :: "(entry_row \<Rightarrow> int) \<Rightarrow> joined_row \<Rightarrow> joined_row \<Rightarrow> bool" where
  "prev_before key x y \<longleftrightarrow>
     key (fst x) > key (fst y) \<or>
     (key (fst x) = key (fst y) \<and>
        (e_created_at (fst x) > e_created_at (fst y) \<or>
         (e_created_at (fst x) = e_created_at (fst y) \<and> e_id (fst x) < e_id (fst y))))"

definition next_before :: "(entry_row \<Rightarrow> int) \<Rightarrow> joined_row \<Rightarrow> joined_row \<Rightarrow> bool" where
  "next_before key x y \<longleftrightarrow>
     key (fst x) < key (fst y) \<or>
     (key (fst x) = key (fst y) \<and>
        (e_created_at (fst x) < e_created_at (fst y) \<or>
         (e_created_at (fst x) = e_created_at (fst y) \<and> e_id (fst x) > e_id (fst y))))"

text \<open>\<open>ORDER BY ... LIMIT 1\<close>: the first row no other row sorts strictly before.\<close>

fun first_by :: "('a \<Rightarrow> 'a \<Rightarrow> bool) \<Rightarrow> 'a list \<Rightarrow> 'a option" where
  "first_by before [] = None"
| "first_by before (x # xs) =
     (case first_by before xs of
        None \<Rightarrow> Some x
      | Some y \<Rightarrow> if before y x then Some y else Some x)"

definition prev_rows :: "EntryPaginationBuilder \<Rightarrow> (entry_row \<Rightarrow> int) \<Rightarrow> db \<Rightarrow> joined_row list" where
  "prev_rows b key d =
     (case anchor_value key (pb_entryID b) d of
        None \<Rightarrow> []
      | Some v \<Rightarrow>
          filter (\<lambda>x. satisfies (pb_conditions b) x \<and> prev_candidate key v (pb_entryID b) x)
            (joined_rows d))"

definition next_rows :: "EntryPaginationBuilder \<Rightarrow> (entry_row \<Rightarrow> int) \<Rightarrow> db \<Rightarrow> joined_row list" where
  "next_rows b key d =
     (case anchor_value key (pb_entryID b) d of
        None \<Rightarrow> []
      | Some v \<Rightarrow>
          filter (\<lambda>x. satisfies (pb_conditions b) x \<and> next_candidate key v (pb_entryID b) x)
            (joined_rows d))"

text \<open>
  \<open>getPrevNextID\<close>. A query without a row leaves the id at 0. An empty list of
  conditions would make the text \<open>WHERE  AND (...)\<close>, which SQLite rejects.
\<close>

definition getPrevNextID :: "EntryPaginationBuilder \<Rightarrow> db \<Rightarrow> error + (int \<times> int)" where
  "getPrevNextID b d =
     (if pb_conditions b = [] then Inl (ErrPaginationPrev SyntaxError)
      else
        case order_column (pb_order b) of
          None \<Rightarrow> Inl (ErrPaginationPrev (NoSuchColumn (pb_order b)))
        | Some key \<Rightarrow>
            let pID = map_option (\<lambda>x. e_id (fst x)) (first_by (prev_before key) (prev_rows b key d));
                nID = map_option (\<lambda>x. e_id (fst x)) (first_by (next_before key) (next_rows b key d))
            in Inr (case pID of None \<Rightarrow> 0 | Some i \<Rightarrow> i, case nID of None \<Rightarrow> 0 | Some i \<Rightarrow> i))"

text \<open>
  \<open>getEntry\<close>: \<open>SELECT id, title FROM entries WHERE id = ?\<close>; no row is \<open>nil\<close> without an
  error. The entry returned has only its id and title filled in.
\<close>

definition getEntry :: "db \<Rightarrow> int \<Rightarrow> (int \<times> string) option" where
  "getEntry d entryID =
     map_option (\<lambda>r. (e_id r, e_title r)) (find (\<lambda>r. e_id r = entryID) (entries d))"

definition Entries ::
  "EntryPaginationBuilder \<Rightarrow> db \<Rightarrow> error + ((int \<times> string) option \<times> (int \<times> string) option)" where
  "Entries b d =
     (case getPrevNextID b d of
        Inl err \<Rightarrow> Inl err
      | Inr (prevID, nextID) \<Rightarrow>
          let prevEntry = getEntry d prevID;
              nextEntry = getEntry d nextID
          in if pb_direction b = ''desc'' then Inr (nextEntry, prevEntry)
             else Inr (prevEntry, nextEntry))"

text \<open>
  The neighbour lookups as the specification words them: the previous one takes the
  first row under a descending order on (ordering field, creation time, id), the next one
  the first row under the ascending order on the same triple.
\<close>

definition spec_prev_before :: "(entry_row \<Rightarrow> int) \<Rightarrow> joined_row \<Rightarrow> joined_row \<Rightarrow> bool" where
  "spec_prev_before key x y \<longleftrightarrow>
     key (fst x) > key (fst y) \<or>
     (key (fst x) = key (fst y) \<and>
        (e_created_at (fst x) > e_created_at (fst y) \<or>
         (e_created_at (fst x) = e_created_at (fst y) \<and> e_id (fst x) > e_id (fst y))))"

definition spec_prev_id :: "EntryPaginationBuilder \<Rightarrow> (entry_row \<Rightarrow> int) \<Rightarrow> db \<Rightarrow> int option" where
  "spec_prev_id b key d =
     map_option (\<lambda>x. e_id (fst x)) (first_by (spec_prev_before key) (prev_rows b key d))"

section \<open>Sample data\<close>

text \<open>
  A small database for the concrete runs below: two users, each with one category and one
  feed, and the rows given. A row is written by its id, owner, feed, hash and status; its
  three timestamps are ten times its id.
\<close>

definition sample_row :: "int \<Rightarrow> int \<Rightarrow> int \<Rightarrow> string \<Rightarrow> string \<Rightarrow> entry_row" where
  "sample_row i u f h st =
     \<lparr>e_id = i, e_user_id = u, e_feed_id = f, e_hash = h, e_published_at = 10 * i,
      e_title = ''old title'', e_url = ''old url'', e_comments_url = '''', e_author = '''',
      e_content = '''', e_status = st, e_starred = False, e_changed_at = 10 * i,
      e_share_code = '''', e_reading_time = 0, e_created_at = 10 * i, e_tags = []\<rparr>"

definition sample_db :: "entry_row list \<Rightarrow> db" where
  "sample_db rows =
     \<lparr>users = [1, 2],
      categories = [\<lparr>c_id = 1, c_user_id = 1, c_hide_globally = False\<rparr>,
                    \<lparr>c_id = 2, c_user_id = 2, c_hide_globally = False\<rparr>],
      feeds = [\<lparr>f_id = 1, f_user_id = 1, f_category_id = 1, f_hide_globally = False\<rparr>,
               \<lparr>f_id = 2, f_user_id = 2, f_category_id = 2, f_hide_globally = False\<rparr>],
      entries = rows, entries_seq = 100, enclosures = []\<rparr>"

definition sample_entry :: "string \<Rightarrow> string \<Rightarrow> Entry" where
  "sample_entry h t =
     \<lparr>ID = 0, UserID = 0, FeedID = 0, Status = '''', Hash = h, Title = t, URL = ''new url'',
      CommentsURL = '''', Date = 500, CreatedAt = 0, ChangedAt = 0, Content = ''body'',
      Author = ''author'', ReadingTime = 3, Enclosures = [], Tags = [''tag'']\<rparr>"

text \<open>Two enclosure stores: one that appends and never fails, one that always fails.\<close>

definition appending_store :: enclosure_store where
  "appending_store =
     \<lparr>createEnclosure = (\<lambda>enclosure tbl. Inr (tbl @ [enclosure])),
      updateEnclosures = (\<lambda>entry tbl. Inr (tbl @ Enclosures entry))\<rparr>"

definition failing_store :: enclosure_store where
  "failing_store =
     \<lparr>createEnclosure = (\<lambda>enclosure tbl. Inl (ErrEnclosure (enc_URL enclosure))),
      updateEnclosures = (\<lambda>entry tbl. Inl (ErrEnclosure (URL entry)))\<rparr>"

section \<open>What a statement leaves alone\<close>

text \<open>
  \<open>untouched Q d d'\<close>: the table \<open>entries\<close> has as many rows in \<open>d'\<close> as in \<open>d\<close>, and every
  row of \<open>d\<close> that satisfies \<open>Q\<close> stands unchanged at its place in \<open>d'\<close>.
\<close>

definition untouched :: "(entry_row \<Rightarrow> bool) \<Rightarrow> db \<Rightarrow> db \<Rightarrow> bool" where
  "untouched Q d d' \<longleftrightarrow> list_all2 (\<lambda>r r'. Q r \<longrightarrow> r' = r) (entries d) (entries d')"

definition exempt :: "entry_row \<Rightarrow> bool" where
  "exempt r \<longleftrightarrow> e_starred r \<or> e_share_code r \<noteq> ''''"

text \<open>
  When an entry counts for a builder: joined with its feed and its category it satisfies
  every condition. \<open>only_qualified b d es\<close>: no entry outside \<open>es\<close> counts.
\<close>

definition qualifies :: "EntryPaginationBuilder \<Rightarrow> db \<Rightarrow> entry_row \<Rightarrow> bool" where
  "qualifies b d e \<longleftrightarrow> (\<exists>x \<in> set (joined_rows d). fst x = e \<and> satisfies (pb_conditions b) x)"

definition only_qualified :: "EntryPaginationBuilder \<Rightarrow> db \<Rightarrow> entry_row list \<Rightarrow> bool" where
  "only_qualified b d es \<longleftrightarrow>
     (\<forall>x \<in> set (joined_rows d). satisfies (pb_conditions b) x \<longrightarrow> fst x \<in> set es)"

section \<open>Facts about single statements\<close>

lemma untouched_sql_update:
  "(\<And>r. r \<in> set (entries d) \<Longrightarrow> Q r \<Longrightarrow> P r \<Longrightarrow> f r = r) \<Longrightarrow>
     untouched Q d (snd (sql_update P f d))"
  by (auto simp: untouched_def sql_update_def list_all2_map2 list_all2_same)

lemma untouched_refl: "untouched Q d d"
  by (simp add: untouched_def list_all2_same)

lemma sql_update_none:
  "(\<And>r. r \<in> set (entries d) \<Longrightarrow> \<not> P r) \<Longrightarrow> sql_update P f d = (0, d)"
proof -
  assume h: "\<And>r. r \<in> set (entries d) \<Longrightarrow> \<not> P r"
  have "filter P (entries d) = []" using h by (simp add: filter_empty_conv)
  moreover have "map (\<lambda>r. if P r then f r else r) (entries d) = entries d"
    using h by (simp add: map_idI)
  ultimately show ?thesis by (simp add: sql_update_def)
qed

lemma pk_same_id:
  "distinct (map e_id xs) \<Longrightarrow> x \<in> set xs \<Longrightarrow> y \<in> set xs \<Longrightarrow> e_id x = e_id y \<Longrightarrow> x = y"
  by (meson distinct_map inj_onD)

section \<open>The reaper\<close>

text \<open>
  Claim C4, as amended. For a hash list that is not empty, \<open>cleanupEntries\<close> succeeds and
  deletes exactly the rows of the feed whose status is removed and whose hash is not in
  the list: the rows left are the others, unchanged and in their order. So every such
  row is gone, and every row whose hash is in the list, whose status is not removed or
  whose feed is another one is still stored. The witness is the run of the claim: removed
  entries with hashes A, B, C and the observed hashes A, C lose the entry B only.
\<close>

theorem cleanupEntries_deletes_exactly:
  "entryHashes \<noteq> [] \<Longrightarrow>
     fst (cleanupEntries feedID entryHashes d) = None \<and>
     entries (snd (cleanupEntries feedID entryHashes d)) =
       filter (\<lambda>r. \<not> (e_feed_id r = feedID \<and> e_status r = ''removed'' \<and>
                       e_hash r \<notin> set entryHashes))
         (entries d) \<and>
     (\<forall>r \<in> set (entries d).
        e_feed_id r = feedID \<and> e_status r = ''removed'' \<and> e_hash r \<notin> set entryHashes \<longrightarrow>
        r \<notin> set (entries (snd (cleanupEntries feedID entryHashes d)))) \<and>
     (\<forall>r \<in> set (entries d).
        e_hash r \<in> set entryHashes \<or> e_status r \<noteq> ''removed'' \<or> e_feed_id r \<noteq> feedID \<longrightarrow>
        r \<in> set (entries (snd (cleanupEntries feedID entryHashes d))))"
  by (auto simp: cleanupEntries_def cleanup_doomed_def EntryStatusRemoved_def Let_def)

theorem cleanupEntries_deletes_exactly_witness:
  "[''A'', ''C''] \<noteq> ([] :: string list) \<and>
   entries (snd (cleanupEntries 1 [''A'', ''C'']
     (sample_db [sample_row 1 1 1 ''A'' ''removed'', sample_row 2 1 1 ''B'' ''removed'',
                 sample_row 3 1 1 ''C'' ''removed'']))) =
     [sample_row 1 1 1 ''A'' ''removed'', sample_row 3 1 1 ''C'' ''removed'']"
  using cleanupEntries_deletes_exactly [of "[''A'', ''C'']" 1
      "sample_db [sample_row 1 1 1 ''A'' ''removed'', sample_row 2 1 1 ''B'' ''removed'',
                 sample_row 3 1 1 ''C'' ''removed'']"]
  by (simp add: sample_db_def sample_row_def)

text \<open>
  Claim C4 as stated fails for the empty hash list: the removed entry B of feed 1 has a
  hash that is not in the empty set, and it is still stored after \<open>cleanupEntries\<close>.
\<close>

theorem cleanupEntries_empty_set_counterexample:
  "entries (snd (cleanupEntries 1 [] (sample_db [sample_row 2 1 1 ''B'' ''removed'']))) =
     [sample_row 2 1 1 ''B'' ''removed'']"
  by (simp add: cleanupEntries_def sample_db_def)

text \<open>
  Claim C10. With no hash observed, \<open>cleanupEntries\<close> returns success and the database as
  it was. A refresh with no candidate creates nothing, and the goroutine it starts is
  called with the empty hash list, so it deletes nothing from whatever database it finds.
\<close>

theorem cleanupEntries_no_hashes:
  "cleanupEntries feedID [] d = (None, d) \<and>
   RefreshFeedEntries s now userID feedID [] updateExistingEntries d =
     (Inr [], d, Some (feedID, [])) \<and>
   run_cleanup (snd (snd (RefreshFeedEntries s now userID feedID [] updateExistingEntries d))) d' = d'"
  by (simp add: cleanupEntries_def RefreshFeedEntries_def run_cleanup_def)

section \<open>Bulk status operations\<close>

lemma archive_ids_candidates:
  "i \<in> set (map e_id (take n (sort_key k (filter P xs)))) \<Longrightarrow> \<exists>y \<in> set xs. P y \<and> e_id y = i"
proof -
  assume "i \<in> set (map e_id (take n (sort_key k (filter P xs))))"
  then obtain y where y: "y \<in> set (take n (sort_key k (filter P xs)))" "e_id y = i" by auto
  from y(1) have "y \<in> set (sort_key k (filter P xs))" by (rule in_set_takeD)
  then have "y \<in> set xs \<and> P y" by simp
  with y(2) show ?thesis by blast
qed

lemma ArchiveEntries_untouched:
  assumes "distinct (map e_id (entries d))"
    and "\<And>r. archive_candidate now status days r \<Longrightarrow> \<not> Q r"
  shows "untouched Q d (snd (ArchiveEntries now status days limit d))"
proof (cases "days < 0 \<or> limit \<le> 0")
  case True
  then show ?thesis by (simp add: ArchiveEntries_def untouched_refl)
next
  case False
  let ?ids = "map e_id (take (nat limit)
                (sort_key e_created_at (filter (archive_candidate now status days) (entries d))))"
  have "untouched Q d (snd (sql_update (\<lambda>r. e_id r \<in> set ?ids)
                              (\<lambda>r. r\<lparr>e_status := EntryStatusRemoved\<rparr>) d))"
  proof (rule untouched_sql_update)
    fix r assume r: "r \<in> set (entries d)" "Q r" "e_id r \<in> set ?ids"
    from archive_ids_candidates[OF r(3)] obtain y where
      y: "y \<in> set (entries d)" "archive_candidate now status days y" "e_id y = e_id r" by blast
    from pk_same_id[OF assms(1) y(1) r(1) y(3)] have "y = r" .
    with y(2) assms(2) r(2) show "r\<lparr>e_status := EntryStatusRemoved\<rparr> = r" by blast
  qed
  with False show ?thesis
    by (simp add: ArchiveEntries_def Let_def split_beta)
qed

text \<open>
  Claim C5. In a database whose entry ids are a primary key, every entry that is starred
  or carries a share code stands unchanged after \<open>ArchiveEntries\<close>, whatever the status,
  days and limit, and after \<open>FlushHistory\<close>: neither moves it to removed.
\<close>

theorem exempt_entries_keep_status:
  "entries_pk d \<Longrightarrow>
     untouched exempt d (snd (ArchiveEntries now status days limit d)) \<and>
     untouched exempt d (snd (FlushHistory now userID d))"
proof -
  assume pk: "entries_pk d"
  have a: "untouched exempt d (snd (ArchiveEntries now status days limit d))"
    by (rule ArchiveEntries_untouched)
      (use pk in \<open>auto simp: entries_pk_def archive_candidate_def exempt_def\<close>)
  have f: "untouched exempt d (snd (FlushHistory now userID d))"
    unfolding FlushHistory_def Let_def split_beta snd_conv
    by (rule untouched_sql_update) (auto simp: exempt_def)
  from a f show ?thesis by simp
qed

theorem exempt_entries_keep_status_witness:
  "entries (snd (ArchiveEntries 1000 ''read'' 0 10
      (sample_db [(sample_row 1 1 1 ''a'' ''read'')\<lparr>e_starred := True\<rparr>,
                  (sample_row 2 1 1 ''b'' ''read'')\<lparr>e_share_code := ''code''\<rparr>,
                  sample_row 3 1 1 ''c'' ''read'']))) =
     [(sample_row 1 1 1 ''a'' ''read'')\<lparr>e_starred := True\<rparr>,
      (sample_row 2 1 1 ''b'' ''read'')\<lparr>e_share_code := ''code''\<rparr>,
      sample_row 3 1 1 ''c'' ''removed''] \<and>
   entries (snd (FlushHistory 1000 1
      (sample_db [(sample_row 1 1 1 ''a'' ''read'')\<lparr>e_starred := True\<rparr>,
                  (sample_row 2 1 1 ''b'' ''read'')\<lparr>e_share_code := ''code''\<rparr>,
                  sample_row 3 1 1 ''c'' ''read'']))) =
     [(sample_row 1 1 1 ''a'' ''read'')\<lparr>e_starred := True\<rparr>,
      (sample_row 2 1 1 ''b'' ''read'')\<lparr>e_share_code := ''code''\<rparr>,
      (sample_row 3 1 1 ''c'' ''removed'')\<lparr>e_changed_at := 1000\<rparr>]"
proof -
  let ?d = "sample_db [(sample_row 1 1 1 ''a'' ''read'')\<lparr>e_starred := True\<rparr>,
                  (sample_row 2 1 1 ''b'' ''read'')\<lparr>e_share_code := ''code''\<rparr>,
                  sample_row 3 1 1 ''c'' ''read'']"
  have pk: "entries_pk ?d" by (simp add: entries_pk_def sample_db_def sample_row_def)
  show ?thesis
    using exempt_entries_keep_status [OF pk, of 1000 "''read''" 0 10 1]
    by (simp add: ArchiveEntries_def archive_candidate_def FlushHistory_def sql_update_def
        sample_db_def sample_row_def EntryStatusRemoved_def EntryStatusRead_def)
qed

lemma SetEntriesStatus_scoped:
  "untouched (\<lambda>r. e_user_id r \<noteq> userID) d (snd (SetEntriesStatus now userID entryIDs status d))"
proof -
  have "untouched (\<lambda>r. e_user_id r \<noteq> userID) d
          (snd (sql_update (\<lambda>r. e_user_id r = userID \<and> e_id r \<in> set entryIDs)
                  (\<lambda>r. r\<lparr>e_status := status, e_changed_at := now\<rparr>) d))"
    by (rule untouched_sql_update) simp
  then show ?thesis
    by (simp add: SetEntriesStatus_def Let_def split_beta untouched_refl)
qed

lemma SetEntriesBookmarkedState_scoped:
  "untouched (\<lambda>r. e_user_id r \<noteq> userID) d
     (snd (SetEntriesBookmarkedState now userID entryIDs starred d))"
proof -
  have "untouched (\<lambda>r. e_user_id r \<noteq> userID) d
          (snd (sql_update (\<lambda>r. e_user_id r = userID \<and> e_id r \<in> set entryIDs)
                  (\<lambda>r. r\<lparr>e_starred := starred, e_changed_at := now\<rparr>) d))"
    by (rule untouched_sql_update) simp
  then show ?thesis
    by (simp add: SetEntriesBookmarkedState_def Let_def split_beta untouched_refl)
qed

lemma ToggleBookmark_scoped:
  "untouched (\<lambda>r. e_user_id r \<noteq> userID) d (snd (ToggleBookmark now userID entryID d))"
proof -
  have "untouched (\<lambda>r. e_user_id r \<noteq> userID) d
          (snd (sql_update (\<lambda>r. e_user_id r = userID \<and> e_id r = entryID)
                  (\<lambda>r. r\<lparr>e_starred := (if e_starred r then False else True),
                         e_changed_at := now\<rparr>) d))"
    by (rule untouched_sql_update) simp
  then show ?thesis
    by (simp add: ToggleBookmark_def Let_def split_beta)
qed

lemma FlushHistory_scoped:
  "untouched (\<lambda>r. e_user_id r \<noteq> userID) d (snd (FlushHistory now userID d))"
  unfolding FlushHistory_def Let_def split_beta snd_conv
  by (rule untouched_sql_update) simp

lemma MarkAllAsRead_scoped:
  "untouched (\<lambda>r. e_user_id r \<noteq> userID) d (snd (MarkAllAsRead now userID d))"
  unfolding MarkAllAsRead_def Let_def split_beta snd_conv
  by (rule untouched_sql_update) simp

lemma MarkAllAsReadBeforeDate_scoped:
  "untouched (\<lambda>r. e_user_id r \<noteq> userID) d (snd (MarkAllAsReadBeforeDate now userID before d))"
  unfolding MarkAllAsReadBeforeDate_def Let_def split_beta snd_conv
  by (rule untouched_sql_update) simp

lemma MarkGloballyVisibleFeedsAsRead_scoped:
  "untouched (\<lambda>r. e_user_id r \<noteq> userID) d (snd (MarkGloballyVisibleFeedsAsRead now userID d))"
  unfolding MarkGloballyVisibleFeedsAsRead_def Let_def split_beta snd_conv
  by (rule untouched_sql_update) simp

lemma MarkFeedAsRead_scoped:
  "untouched (\<lambda>r. e_user_id r \<noteq> userID) d (snd (MarkFeedAsRead now userID feedID before d))"
  unfolding MarkFeedAsRead_def Let_def split_beta snd_conv
  by (rule untouched_sql_update) simp

lemma MarkCategoryAsRead_scoped:
  "untouched (\<lambda>r. e_user_id r \<noteq> userID) d
     (snd (MarkCategoryAsRead now userID categoryID before d))"
  unfolding MarkCategoryAsRead_def Let_def split_beta snd_conv
  by (rule untouched_sql_update) simp

text \<open>
  Claim C8, as amended. Each bulk operation that takes a user id leaves every entry of
  every other user unchanged: \<open>SetEntriesStatus\<close>, \<open>SetEntriesBookmarkedState\<close>,
  \<open>ToggleBookmark\<close>, \<open>FlushHistory\<close> and the five mark-as-read operations.
  \<open>ArchiveEntries\<close> takes no user id and is not among them.
\<close>

theorem user_scoped_operations:
  "untouched (\<lambda>r. e_user_id r \<noteq> userID) d (snd (SetEntriesStatus now userID entryIDs status d)) \<and>
   untouched (\<lambda>r. e_user_id r \<noteq> userID) d
     (snd (SetEntriesBookmarkedState now userID entryIDs starred d)) \<and>
   untouched (\<lambda>r. e_user_id r \<noteq> userID) d (snd (ToggleBookmark now userID entryID d)) \<and>
   untouched (\<lambda>r. e_user_id r \<noteq> userID) d (snd (FlushHistory now userID d)) \<and>
   untouched (\<lambda>r. e_user_id r \<noteq> userID) d (snd (MarkAllAsRead now userID d)) \<and>
   untouched (\<lambda>r. e_user_id r \<noteq> userID) d (snd (MarkAllAsReadBeforeDate now userID before d)) \<and>
   untouched (\<lambda>r. e_user_id r \<noteq> userID) d (snd (MarkGloballyVisibleFeedsAsRead now userID d)) \<and>
   untouched (\<lambda>r. e_user_id r \<noteq> userID) d (snd (MarkFeedAsRead now userID feedID before d)) \<and>
   untouched (\<lambda>r. e_user_id r \<noteq> userID) d
     (snd (MarkCategoryAsRead now userID categoryID before d))"
  by (intro conjI SetEntriesStatus_scoped SetEntriesBookmarkedState_scoped ToggleBookmark_scoped
      FlushHistory_scoped MarkAllAsRead_scoped MarkAllAsReadBeforeDate_scoped
      MarkGloballyVisibleFeedsAsRead_scoped MarkFeedAsRead_scoped MarkCategoryAsRead_scoped)

theorem user_scoped_operations_witness:
  "entries (snd (SetEntriesStatus 50 1 [1, 2] ''read''
      (sample_db [sample_row 1 1 1 ''a'' ''unread'', sample_row 2 2 2 ''b'' ''unread'']))) =
     [(sample_row 1 1 1 ''a'' ''read'')\<lparr>e_changed_at := 50\<rparr>, sample_row 2 2 2 ''b'' ''unread''] \<and>
   entries (snd (FlushHistory 50 1
      (sample_db [sample_row 1 1 1 ''a'' ''read'', sample_row 2 2 2 ''b'' ''read'']))) =
     [(sample_row 1 1 1 ''a'' ''removed'')\<lparr>e_changed_at := 50\<rparr>, sample_row 2 2 2 ''b'' ''read''] \<and>
   entries (snd (MarkAllAsRead 50 1
      (sample_db [sample_row 1 1 1 ''a'' ''unread'', sample_row 2 2 2 ''b'' ''unread'']))) =
     [(sample_row 1 1 1 ''a'' ''read'')\<lparr>e_changed_at := 50\<rparr>, sample_row 2 2 2 ''b'' ''unread'']"
  using user_scoped_operations [of 1
      "sample_db [sample_row 1 1 1 ''a'' ''unread'', sample_row 2 2 2 ''b'' ''unread'']"
      50 "[1, 2]" "''read''"]
    user_scoped_operations [of 1
      "sample_db [sample_row 1 1 1 ''a'' ''read'', sample_row 2 2 2 ''b'' ''read'']" 50]
  by (simp add: untouched_def sample_db_def sample_row_def SetEntriesStatus_def FlushHistory_def
      MarkAllAsRead_def sql_update_def status_check_def EntryStatusRead_def EntryStatusUnread_def
      EntryStatusRemoved_def mark_read_def)

text \<open>
  Claim C8 as stated fails for \<open>ArchiveEntries\<close>: it is scoped by no user, and one call
  moves the read entries of user 1 and of user 2 to removed.
\<close>

theorem ArchiveEntries_all_users_counterexample:
  "entries (snd (ArchiveEntries 1000 ''read'' 0 10
      (sample_db [sample_row 1 1 1 ''a'' ''read'', sample_row 2 2 2 ''b'' ''read'']))) =
     [sample_row 1 1 1 ''a'' ''removed'', sample_row 2 2 2 ''b'' ''removed'']"
  by (simp add: ArchiveEntries_def archive_candidate_def sql_update_def sample_db_def
      sample_row_def EntryStatusRemoved_def)

text \<open>
  Claim C9. In a database whose entry ids are a primary key: when every entry with the
  given id belongs to another user, which includes that there is none, \<open>ToggleBookmark\<close>
  writes no row and returns the error \<open>nothing has been updated\<close>, an error and no nil
  result; when the entry with that id belongs to the user, it returns success, and that
  one row has its flag flipped.
\<close>

theorem ToggleBookmark_nothing_updated:
  "entries_pk d \<Longrightarrow>
     ((\<forall>r \<in> set (entries d). e_id r = entryID \<longrightarrow> e_user_id r \<noteq> userID) \<longrightarrow>
        ToggleBookmark now userID entryID d = (Some ErrNothingUpdated, d)) \<and>
     (\<forall>r \<in> set (entries d). e_id r = entryID \<and> e_user_id r = userID \<longrightarrow>
        ToggleBookmark now userID entryID d =
          (None, d\<lparr>entries := map (\<lambda>x. if x = r
                                       then r\<lparr>e_starred := \<not> e_starred r, e_changed_at := now\<rparr>
                                       else x)
                                 (entries d)\<rparr>))"
proof (intro conjI impI ballI)
  assume "\<forall>r \<in> set (entries d). e_id r = entryID \<longrightarrow> e_user_id r \<noteq> userID"
  then have "\<And>r. r \<in> set (entries d) \<Longrightarrow> \<not> (e_user_id r = userID \<and> e_id r = entryID)"
    by blast
  from sql_update_none[of d "\<lambda>r. e_user_id r = userID \<and> e_id r = entryID", OF this]
  show "ToggleBookmark now userID entryID d = (Some ErrNothingUpdated, d)"
    by (simp add: ToggleBookmark_def)
next
  fix r assume pk: "entries_pk d"
    and r: "r \<in> set (entries d)" "e_id r = entryID \<and> e_user_id r = userID"
  have same: "\<And>x. x \<in> set (entries d) \<Longrightarrow> (e_user_id x = userID \<and> e_id x = entryID) = (x = r)"
    using pk r by (metis distinct_map inj_onD entries_pk_def)
  have m: "map (\<lambda>x. if e_user_id x = userID \<and> e_id x = entryID
                    then x\<lparr>e_starred := (if e_starred x then False else True),
                           e_changed_at := now\<rparr>
                    else x) (entries d)
         = map (\<lambda>x. if x = r then r\<lparr>e_starred := \<not> e_starred r, e_changed_at := now\<rparr> else x)
             (entries d)"
    by (rule map_cong) (use same in auto)
  have "filter (\<lambda>r. e_user_id r = userID \<and> e_id r = entryID) (entries d) \<noteq> []"
    using r by (auto simp: filter_empty_conv)
  then show "ToggleBookmark now userID entryID d =
          (None, d\<lparr>entries := map (\<lambda>x. if x = r
                                       then r\<lparr>e_starred := \<not> e_starred r, e_changed_at := now\<rparr>
                                       else x)
                                 (entries d)\<rparr>)"
    using m by (simp add: ToggleBookmark_def sql_update_def)
qed

theorem ToggleBookmark_nothing_updated_witness:
  "ToggleBookmark 50 1 2
      (sample_db [sample_row 1 1 1 ''a'' ''unread'', sample_row 2 2 2 ''b'' ''unread''])
     = (Some ErrNothingUpdated,
        sample_db [sample_row 1 1 1 ''a'' ''unread'', sample_row 2 2 2 ''b'' ''unread'']) \<and>
   ToggleBookmark 50 1 7
      (sample_db [sample_row 1 1 1 ''a'' ''unread'', sample_row 2 2 2 ''b'' ''unread''])
     = (Some ErrNothingUpdated,
        sample_db [sample_row 1 1 1 ''a'' ''unread'', sample_row 2 2 2 ''b'' ''unread'']) \<and>
   ToggleBookmark 50 1 1
      (sample_db [sample_row 1 1 1 ''a'' ''unread'', sample_row 2 2 2 ''b'' ''unread''])
     = (None, sample_db [(sample_row 1 1 1 ''a'' ''unread'')\<lparr>e_starred := True, e_changed_at := 50\<rparr>,
                         sample_row 2 2 2 ''b'' ''unread''])"
proof -
  let ?d = "sample_db [sample_row 1 1 1 ''a'' ''unread'', sample_row 2 2 2 ''b'' ''unread'']"
  have pk: "entries_pk ?d" by (simp add: entries_pk_def sample_db_def sample_row_def)
  show ?thesis
    using ToggleBookmark_nothing_updated [OF pk, of 2 1 50]
      ToggleBookmark_nothing_updated [OF pk, of 7 1 50]
      ToggleBookmark_nothing_updated [OF pk, of 1 1 50]
    by (simp add: sample_db_def sample_row_def)
qed

section \<open>The reconciler\<close>

lemma refresh_loop_append:
  "refresh_loop s now u f upd xs new hs d = (Inr new1, d1, t1) \<Longrightarrow>
     \<exists>hs1. t1 = Some (f, hs1) \<and>
       refresh_loop s now u f upd (xs @ rest) new hs d = refresh_loop s now u f upd rest new1 hs1 d1"
proof (induction xs arbitrary: new hs d)
  case Nil
  then show ?case by auto
next
  case (Cons x xs)
  then show ?case
    by (cases upd) (auto simp add: Let_def split: if_splits sum.splits prod.splits)
qed

lemma refresh_loop_fail_step:
  "refresh_loop s now u f upd [c] new hs d = (Inl err, d', t') \<Longrightarrow>
     refresh_loop s now u f upd (c # post) new2 hs2 d = (Inl err, d, None)"
  by (simp add: Let_def split: if_splits sum.splits prod.splits)

text \<open>
  Claim C3. Let the candidates before candidate \<open>c\<close> go through as a batch of their own
  and leave the database \<open>d1\<close>, and let \<open>c\<close> fail there with the error \<open>err\<close>. Then the
  whole batch, whatever candidates follow \<open>c\<close>, returns that one error and no entries;
  the database it leaves is \<open>d1\<close>, with everything the earlier candidates committed and
  nothing of \<open>c\<close> or of the candidates after it; and no cleanup goroutine is started.
\<close>

theorem refresh_partial_batch:
  "RefreshFeedEntries s now userID feedID pre upd d = (Inr created, d1, task) \<Longrightarrow>
   RefreshFeedEntries s now userID feedID [c] upd d1 = (Inl err, d1', task') \<Longrightarrow>
   RefreshFeedEntries s now userID feedID (pre @ c # post) upd d = (Inl err, d1, None)"
proof -
  assume a: "RefreshFeedEntries s now userID feedID pre upd d = (Inr created, d1, task)"
    and b: "RefreshFeedEntries s now userID feedID [c] upd d1 = (Inl err, d1', task')"
  from a obtain hs1 where
    "refresh_loop s now userID feedID upd (pre @ c # post) [] [] d =
       refresh_loop s now userID feedID upd (c # post) created hs1 d1"
    unfolding RefreshFeedEntries_def using refresh_loop_append by blast
  moreover from b have "refresh_loop s now userID feedID upd (c # post) created hs1 d1 = (Inl err, d1, None)"
    unfolding RefreshFeedEntries_def by (rule refresh_loop_fail_step)
  ultimately show ?thesis by (simp add: RefreshFeedEntries_def)
qed


theorem refresh_partial_batch_witness:
  "RefreshFeedEntries appending_store 50 1 1
      ([sample_entry ''h1'' ''A''] @ sample_entry ''h2'' ''B'' # [sample_entry ''h3'' ''C''])
      True (sample_db [sample_row 1 2 1 ''h2'' ''unread'']) =
     (Inl ErrNoEntryToUpdate,
      (sample_db [sample_row 1 2 1 ''h2'' ''unread'',
                  new_entry_row 50 101 ((sample_entry ''h1'' ''A'')\<lparr>UserID := 1, FeedID := 1\<rparr>)])
        \<lparr>entries_seq := 101\<rparr>,
      None)"
proof -
  let ?d = "sample_db [sample_row 1 2 1 ''h2'' ''unread'']"
  let ?d1 = "(sample_db [sample_row 1 2 1 ''h2'' ''unread'',
                  new_entry_row 50 101 ((sample_entry ''h1'' ''A'')\<lparr>UserID := 1, FeedID := 1\<rparr>)])
        \<lparr>entries_seq := 101\<rparr>"
  have a: "RefreshFeedEntries appending_store 50 1 1 [sample_entry ''h1'' ''A''] True ?d =
      (Inr [(sample_entry ''h1'' ''A'')\<lparr>UserID := 1, FeedID := 1, ID := 101, Status := ''unread'',
              CreatedAt := 50, ChangedAt := 50\<rparr>], ?d1, Some (1, [''h1'']))"
    by (simp add: RefreshFeedEntries_def entryExists_def createEntry_def sample_db_def
        sample_row_def sample_entry_def appending_store_def bind_enclosures_def)
  have b: "RefreshFeedEntries appending_store 50 1 1 [sample_entry ''h2'' ''B''] True ?d1 =
      (Inl ErrNoEntryToUpdate, ?d1, None)"
    by (simp add: RefreshFeedEntries_def entryExists_def updateEntry_def update_target_def
        sql_update_def sample_db_def sample_row_def sample_entry_def new_entry_row_def)
  from refresh_partial_batch [OF a b, of "[sample_entry ''h3'' ''C'']"] show ?thesis .
qed

lemma distinct_key_filter:
  "distinct (map k xs) \<Longrightarrow> length (filter (\<lambda>r. k r = v) xs) \<le> 1"
proof (induction xs)
  case Nil
  then show ?case by simp
next
  case (Cons x xs)
  show ?case
  proof (cases "k x = v")
    case True
    with Cons.prems have "filter (\<lambda>r. k r = v) xs = []"
      by (auto simp: filter_empty_conv image_iff)
    with True show ?thesis by simp
  next
    case False
    with Cons show ?thesis by simp
  qed
qed

lemma stored_length_le:
  "entries_feed_hash_key d \<Longrightarrow> length (stored f h d) \<le> 1"
proof -
  assume "entries_feed_hash_key d"
  then have "length (filter (\<lambda>r. (e_feed_id r, e_hash r) = (f, h)) (entries d)) \<le> 1"
    unfolding entries_feed_hash_key_def by (rule distinct_key_filter)
  then show ?thesis by (simp add: stored_def)
qed

lemma entryExists_stored:
  "entryExists entry d \<longleftrightarrow> stored (FeedID entry) (Hash entry) d \<noteq> []"
  by (auto simp: entryExists_def stored_def filter_empty_conv)

lemma createEntry_stored:
  "createEntry s now entry d = Inr (entry', d') \<Longrightarrow>
     Hash entry' = Hash entry \<and>
     stored (FeedID entry) (Hash entry) d' =
       stored (FeedID entry) (Hash entry) d @ [new_entry_row now (entries_seq d + 1) entry]"
  by (auto simp: createEntry_def Let_def stored_def new_entry_row_def split: if_splits sum.splits)

lemma stored_cleanupEntries:
  "h \<in> set hs \<Longrightarrow> stored f h (snd (cleanupEntries f' hs d)) = stored f h d"
proof -
  assume h: "h \<in> set hs"
  have "filter (\<lambda>r. e_feed_id r = f \<and> e_hash r = h) (filter (\<lambda>r. \<not> cleanup_doomed f' hs r) (entries d))
      = filter (\<lambda>r. e_feed_id r = f \<and> e_hash r = h) (entries d)"
    unfolding filter_filter
    by (rule filter_cong) (use h in \<open>auto simp: cleanup_doomed_def\<close>)
  then show ?thesis
    by (simp add: cleanupEntries_def stored_def Let_def)
qed

lemma stored_run_cleanup:
  "h \<in> set hs \<Longrightarrow> stored f h ((run_cleanup (Some (f', hs)) ^^ n) d) = stored f h d"
  by (induction n) (simp_all add: run_cleanup_def stored_cleanupEntries)

lemma first_refresh:
  assumes "entries_feed_hash_key d"
    and "RefreshFeedEntries s now userID feedID [c] False d = (Inr created, d1, task)"
  shows "task = Some (feedID, [Hash c]) \<and> length (stored feedID (Hash c) d1) = 1"
proof (cases "entryExists (c\<lparr>UserID := userID, FeedID := feedID\<rparr>) d")
  case True
  with assms(2) have eq: "d1 = d" "task = Some (feedID, [Hash c])"
    by (simp_all add: RefreshFeedEntries_def Let_def)
  from True have "stored feedID (Hash c) d \<noteq> []" by (simp add: entryExists_stored)
  with stored_length_le[OF assms(1), of feedID "Hash c"] have "length (stored feedID (Hash c) d) = 1"
    by (cases "stored feedID (Hash c) d") simp_all
  with eq show ?thesis by simp
next
  case False
  with assms(2) obtain entry' where
    ce: "createEntry s now (c\<lparr>UserID := userID, FeedID := feedID\<rparr>) d = Inr (entry', d1)"
    and t: "task = Some (feedID, [Hash entry'])"
    by (auto simp: RefreshFeedEntries_def Let_def split: sum.splits)
  from False have "stored feedID (Hash c) d = []" by (simp add: entryExists_stored)
  with createEntry_stored[OF ce] t show ?thesis by simp
qed

lemma second_refresh:
  "stored feedID (Hash c') d2 \<noteq> [] \<Longrightarrow>
     RefreshFeedEntries s now userID feedID [c'] False d2 = (Inr [], d2, Some (feedID, [Hash c']))"
  by (simp add: RefreshFeedEntries_def Let_def entryExists_stored)

text \<open>
  Claim C1. In a database that keeps the key on feed and hash, let a refresh with the one
  candidate \<open>c\<close> and \<open>updateExisting = false\<close> succeed. Then exactly one row is stored for
  the feed and the hash of \<open>c\<close>; a second refresh with a candidate of the same hash
  returns no new entry and leaves the database as it found it; and one row is stored for
  that feed and hash afterwards. The cleanup goroutines of the two calls may run any
  number of times before and after the second call (\<open>n\<close> and \<open>m\<close>) without changing this.
\<close>

theorem refresh_twice_one_entry:
  "entries_feed_hash_key d \<Longrightarrow>
   RefreshFeedEntries s now userID feedID [c] False d = (Inr created, d1, task) \<Longrightarrow>
   Hash c' = Hash c \<Longrightarrow>
   d2 = (run_cleanup task ^^ n) d1 \<Longrightarrow>
     length (stored feedID (Hash c) d1) = 1 \<and>
     RefreshFeedEntries s now' userID feedID [c'] False d2 = (Inr [], d2, task) \<and>
     length (stored feedID (Hash c) ((run_cleanup task ^^ m) d2)) = 1"
proof -
  assume key: "entries_feed_hash_key d"
    and one: "RefreshFeedEntries s now userID feedID [c] False d = (Inr created, d1, task)"
    and h: "Hash c' = Hash c"
    and d2: "d2 = (run_cleanup task ^^ n) d1"
  from first_refresh[OF key one] have t: "task = Some (feedID, [Hash c])"
    and l: "length (stored feedID (Hash c) d1) = 1" by simp_all
  have s2: "stored feedID (Hash c) d2 = stored feedID (Hash c) d1"
    unfolding d2 t by (rule stored_run_cleanup) simp
  have s3: "stored feedID (Hash c) ((run_cleanup task ^^ m) d2) = stored feedID (Hash c) d2"
    unfolding t by (rule stored_run_cleanup) simp
  from l s2 have "stored feedID (Hash c') d2 \<noteq> []" using h by auto
  from second_refresh[OF this, of s now' userID] h t
  have "RefreshFeedEntries s now' userID feedID [c'] False d2 = (Inr [], d2, task)" by simp
  with l s2 s3 show ?thesis by simp
qed

theorem refresh_twice_one_entry_witness:
  "length (stored 1 ''h1''
      ((sample_db [new_entry_row 50 101 ((sample_entry ''h1'' ''A'')\<lparr>UserID := 1, FeedID := 1\<rparr>)])
         \<lparr>entries_seq := 101\<rparr>)) = 1 \<and>
   RefreshFeedEntries appending_store 60 1 1 [sample_entry ''h1'' ''A2''] False
      ((sample_db [new_entry_row 50 101 ((sample_entry ''h1'' ''A'')\<lparr>UserID := 1, FeedID := 1\<rparr>)])
         \<lparr>entries_seq := 101\<rparr>) =
     (Inr [],
      (sample_db [new_entry_row 50 101 ((sample_entry ''h1'' ''A'')\<lparr>UserID := 1, FeedID := 1\<rparr>)])
         \<lparr>entries_seq := 101\<rparr>,
      Some (1, [''h1''])) \<and>
   length (stored 1 ''h1''
      (run_cleanup (Some (1, [''h1'']))
         ((sample_db [new_entry_row 50 101 ((sample_entry ''h1'' ''A'')\<lparr>UserID := 1, FeedID := 1\<rparr>)])
            \<lparr>entries_seq := 101\<rparr>))) = 1"
proof -
  let ?d1 = "(sample_db [new_entry_row 50 101 ((sample_entry ''h1'' ''A'')\<lparr>UserID := 1, FeedID := 1\<rparr>)])
         \<lparr>entries_seq := 101\<rparr>"
  have key: "entries_feed_hash_key (sample_db [])"
    by (simp add: entries_feed_hash_key_def sample_db_def)
  have a: "RefreshFeedEntries appending_store 50 1 1 [sample_entry ''h1'' ''A''] False (sample_db []) =
      (Inr [(sample_entry ''h1'' ''A'')\<lparr>UserID := 1, FeedID := 1, ID := 101, Status := ''unread'',
              CreatedAt := 50, ChangedAt := 50\<rparr>], ?d1, Some (1, [''h1'']))"
    by (simp add: RefreshFeedEntries_def entryExists_def createEntry_def sample_db_def
        sample_entry_def appending_store_def bind_enclosures_def)
  have h: "Hash (sample_entry ''h1'' ''A2'') = Hash (sample_entry ''h1'' ''A'')"
    by (simp add: sample_entry_def)
  have d2: "?d1 = (run_cleanup (Some (1, [''h1''])) ^^ 0) ?d1" by simp
  have hh: "Hash (sample_entry ''h1'' ''A'') = ''h1''" by (simp add: sample_entry_def)
  from refresh_twice_one_entry [OF key a h d2, of 60 "Suc 0"] show ?thesis
    unfolding hh by simp
qed

lemma updateEntry_entries:
  "updateEntry s entry d = Inr (entry', d') \<Longrightarrow>
     entries d' = map (\<lambda>x. if update_target entry x then refresh_row entry x else x) (entries d) \<and>
     (\<exists>x \<in> set (entries d). update_target entry x)"
proof -
  assume a: "updateEntry s entry d = Inr (entry', d')"
  let ?d1 = "d\<lparr>entries := map (\<lambda>r. if update_target entry r then refresh_row entry r else r) (entries d)\<rparr>"
  have ne: "filter (update_target entry) (entries d) \<noteq> []"
    using a by (auto simp: updateEntry_def sql_update_def Let_def)
  from a ne obtain tbl where
    "d' = ?d1\<lparr>enclosures := tbl\<rparr>"
    by (auto simp: updateEntry_def sql_update_def Let_def split: option.splits sum.splits)
  then have "entries d' = map (\<lambda>x. if update_target entry x then refresh_row entry x else x) (entries d)"
    by simp
  moreover from ne have "\<exists>x \<in> set (entries d). update_target entry x"
    by (auto simp: filter_empty_conv)
  ultimately show ?thesis by simp
qed

lemma refresh_existing:
  assumes "entryExists (c\<lparr>UserID := userID, FeedID := feedID\<rparr>) d"
  shows "RefreshFeedEntries s now userID feedID [c] True d =
           (case updateEntry s (c\<lparr>UserID := userID, FeedID := feedID\<rparr>) d of
              Inl err \<Rightarrow> (Inl err, d, None)
            | Inr (entry', d') \<Rightarrow> (Inr [], d', Some (feedID, [Hash entry'])))"
  using assms by (simp add: RefreshFeedEntries_def Let_def split: sum.splits)

lemma feed_hash_unique:
  "entries_feed_hash_key d \<Longrightarrow> r \<in> set (entries d) \<Longrightarrow> x \<in> set (entries d) \<Longrightarrow>
     e_feed_id x = e_feed_id r \<Longrightarrow> e_hash x = e_hash r \<Longrightarrow> x = r"
proof -
  assume key: "entries_feed_hash_key d" and r: "r \<in> set (entries d)" and x: "x \<in> set (entries d)"
    and e: "e_feed_id x = e_feed_id r" "e_hash x = e_hash r"
  from key have "inj_on (\<lambda>r. (e_feed_id r, e_hash r)) (set (entries d))"
    by (simp add: entries_feed_hash_key_def distinct_map)
  moreover from e have "(\<lambda>r. (e_feed_id r, e_hash r)) x = (\<lambda>r. (e_feed_id r, e_hash r)) r" by simp
  ultimately show "x = r" using x r by (rule inj_onD)
qed

lemma refresh_row_keeps:
  "e_status (refresh_row entry x) = e_status x \<and>
   e_published_at (refresh_row entry x) = e_published_at x \<and>
   e_changed_at (refresh_row entry x) = e_changed_at x"
  by (simp add: refresh_row_def)

lemma updated_rows_keep:
  "list_all2 (\<lambda>x x'. e_status x' = e_status x \<and> e_published_at x' = e_published_at x \<and>
                      e_changed_at x' = e_changed_at x)
     xs (map (\<lambda>x. if update_target entry x then refresh_row entry x else x) xs)"
  unfolding list_all2_map2 by (rule list_all2_refl) (simp add: refresh_row_keeps)

lemma refresh_existing_keeps:
  assumes ex: "entryExists (c\<lparr>UserID := userID, FeedID := feedID\<rparr>) d"
  shows "list_all2 (\<lambda>x x'. e_status x' = e_status x \<and> e_published_at x' = e_published_at x \<and>
                      e_changed_at x' = e_changed_at x)
     (entries d) (entries (fst (snd (RefreshFeedEntries s now userID feedID [c] True d))))"
proof (cases "updateEntry s (c\<lparr>UserID := userID, FeedID := feedID\<rparr>) d")
  case (Inl err)
  have "RefreshFeedEntries s now userID feedID [c] True d = (Inl err, d, None)"
    unfolding refresh_existing[OF ex] Inl by simp
  then show ?thesis by (simp add: list_all2_same)
next
  case (Inr p)
  obtain entry' d' where p: "p = (entry', d')" by (cases p)
  have run: "RefreshFeedEntries s now userID feedID [c] True d = (Inr [], d', Some (feedID, [Hash entry']))"
    unfolding refresh_existing[OF ex] Inr p by simp
  from Inr p have "updateEntry s (c\<lparr>UserID := userID, FeedID := feedID\<rparr>) d = Inr (entry', d')"
    by simp
  from updateEntry_entries[OF this] have
    e: "entries d' = map (\<lambda>x. if update_target (c\<lparr>UserID := userID, FeedID := feedID\<rparr>) x
                              then refresh_row (c\<lparr>UserID := userID, FeedID := feedID\<rparr>) x else x) (entries d)"
    by (rule conjunct1)
  show ?thesis unfolding run fst_conv snd_conv e by (rule updated_rows_keep)
qed

lemma refresh_existing_success:
  assumes ex: "entryExists (c\<lparr>UserID := userID, FeedID := feedID\<rparr>) d"
    and ok: "RefreshFeedEntries s now userID feedID [c] True d = (Inr created, d1, task)"
  shows "created = [] \<and>
         entries d1 = map (\<lambda>x. if update_target (c\<lparr>UserID := userID, FeedID := feedID\<rparr>) x
                              then refresh_row (c\<lparr>UserID := userID, FeedID := feedID\<rparr>) x else x) (entries d) \<and>
         (\<exists>x \<in> set (entries d). update_target (c\<lparr>UserID := userID, FeedID := feedID\<rparr>) x)"
proof (cases "updateEntry s (c\<lparr>UserID := userID, FeedID := feedID\<rparr>) d")
  case (Inl err)
  have "RefreshFeedEntries s now userID feedID [c] True d = (Inl err, d, None)"
    unfolding refresh_existing[OF ex] Inl by simp
  with ok show ?thesis by simp
next
  case (Inr p)
  obtain entry' d' where p: "p = (entry', d')" by (cases p)
  have run: "RefreshFeedEntries s now userID feedID [c] True d = (Inr [], d', Some (feedID, [Hash entry']))"
    unfolding refresh_existing[OF ex] Inr p by simp
  from run ok have eq: "created = []" "d1 = d'" by simp_all
  from Inr p have "updateEntry s (c\<lparr>UserID := userID, FeedID := feedID\<rparr>) d = Inr (entry', d')"
    by simp
  from updateEntry_entries[OF this] show ?thesis unfolding eq by simp
qed

lemma refresh_row_explicit:
  "refresh_row (c\<lparr>UserID := userID, FeedID := feedID\<rparr>) r =
     r\<lparr>e_title := Title c, e_url := URL c, e_comments_url := CommentsURL c,
       e_content := Content c, e_author := Author c,
       e_reading_time := ReadingTime c, e_tags := Tags c\<rparr>"
  by (simp add: refresh_row_def)

lemma update_target_iff:
  "update_target (c\<lparr>UserID := userID, FeedID := feedID\<rparr>) x \<longleftrightarrow>
     e_user_id x = userID \<and> e_feed_id x = feedID \<and> e_hash x = Hash c"
  by (simp add: update_target_def)

text \<open>
  Claim C2, as amended. Let the row \<open>r\<close> be stored for the feed and the hash of candidate
  \<open>c\<close>, in a database that keeps the key on feed and hash. A refresh with
  \<open>updateExisting = true\<close> leaves the status, the publication time and also the change
  time of every row as they were, whether it succeeds or not. When it succeeds it creates
  no entry, and the table is as before but for \<open>r\<close>, whose title, URL, comments URL,
  content, author, reading time and tags are those of the candidate.
\<close>

theorem refresh_update_preserves:
  "entries_feed_hash_key d \<Longrightarrow> r \<in> set (entries d) \<Longrightarrow> e_feed_id r = feedID \<Longrightarrow>
   e_hash r = Hash c \<Longrightarrow>
     list_all2 (\<lambda>x x'. e_status x' = e_status x \<and> e_published_at x' = e_published_at x \<and>
                        e_changed_at x' = e_changed_at x)
       (entries d) (entries (fst (snd (RefreshFeedEntries s now userID feedID [c] True d)))) \<and>
     (\<forall>created d1 task.
        RefreshFeedEntries s now userID feedID [c] True d = (Inr created, d1, task) \<longrightarrow>
          created = [] \<and>
          entries d1 =
            map (\<lambda>x. if x = r
                      then r\<lparr>e_title := Title c, e_url := URL c, e_comments_url := CommentsURL c,
                             e_content := Content c, e_author := Author c,
                             e_reading_time := ReadingTime c, e_tags := Tags c\<rparr>
                      else x)
              (entries d))"
proof (rule conjI)
  assume r: "r \<in> set (entries d)" "e_feed_id r = feedID" "e_hash r = Hash c"
  then have ex: "entryExists (c\<lparr>UserID := userID, FeedID := feedID\<rparr>) d"
    unfolding entryExists_def by (intro bexI[of _ r]) simp_all
  show "list_all2 (\<lambda>x x'. e_status x' = e_status x \<and> e_published_at x' = e_published_at x \<and>
                        e_changed_at x' = e_changed_at x)
       (entries d) (entries (fst (snd (RefreshFeedEntries s now userID feedID [c] True d))))"
    by (rule refresh_existing_keeps[OF ex])
next
  assume key: "entries_feed_hash_key d"
    and r: "r \<in> set (entries d)" "e_feed_id r = feedID" "e_hash r = Hash c"
  let ?entry = "c\<lparr>UserID := userID, FeedID := feedID\<rparr>"
  let ?new = "r\<lparr>e_title := Title c, e_url := URL c, e_comments_url := CommentsURL c,
                 e_content := Content c, e_author := Author c,
                 e_reading_time := ReadingTime c, e_tags := Tags c\<rparr>"
  from r have ex: "entryExists ?entry d"
    unfolding entryExists_def by (intro bexI[of _ r]) simp_all
  show "\<forall>created d1 task.
        RefreshFeedEntries s now userID feedID [c] True d = (Inr created, d1, task) \<longrightarrow>
          created = [] \<and> entries d1 = map (\<lambda>x. if x = r then ?new else x) (entries d)"
  proof (intro allI impI)
    fix created d1 task
    assume ok: "RefreshFeedEntries s now userID feedID [c] True d = (Inr created, d1, task)"
    from refresh_existing_success[OF ex ok] obtain x where
      c: "created = []"
      and m: "entries d1 = map (\<lambda>x. if update_target ?entry x then refresh_row ?entry x else x) (entries d)"
      and x: "x \<in> set (entries d)" "update_target ?entry x" by blast
    from x(2) have xx: "e_user_id x = userID" "e_feed_id x = e_feed_id r" "e_hash x = e_hash r"
      unfolding update_target_iff using r by simp_all
    from feed_hash_unique[OF key r(1) x(1) xx(2) xx(3)] have "x = r" .
    with xx(1) have ur: "e_user_id r = userID" by simp
    have t: "\<And>y. y \<in> set (entries d) \<Longrightarrow> update_target ?entry y = (y = r)"
    proof -
      fix y assume y: "y \<in> set (entries d)"
      show "update_target ?entry y = (y = r)"
      proof
        assume "update_target ?entry y"
        then have "e_feed_id y = e_feed_id r" "e_hash y = e_hash r"
          unfolding update_target_iff using r by simp_all
        with feed_hash_unique[OF key r(1) y] show "y = r" by simp
      next
        assume "y = r"
        with ur r show "update_target ?entry y" unfolding update_target_iff by simp
      qed
    qed
    have "map (\<lambda>x. if update_target ?entry x then refresh_row ?entry x else x) (entries d) =
          map (\<lambda>x. if x = r then ?new else x) (entries d)"
    proof (rule map_cong[OF refl])
      fix y assume "y \<in> set (entries d)"
      from t[OF this] show "(if update_target ?entry y then refresh_row ?entry y else y) =
          (if y = r then ?new else y)"
        unfolding refresh_row_explicit by simp
    qed
    with m have "entries d1 = map (\<lambda>x. if x = r then ?new else x) (entries d)" by (rule trans)
    with c show "created = [] \<and> entries d1 = map (\<lambda>x. if x = r then ?new else x) (entries d)"
      by (rule conjI)
  qed
qed

theorem refresh_update_preserves_witness:
  "RefreshFeedEntries appending_store 999 1 1 [sample_entry ''h1'' ''new title''] True
      (sample_db [sample_row 1 1 1 ''h1'' ''read'', sample_row 2 1 1 ''h2'' ''unread'']) =
     (Inr [],
      sample_db [(sample_row 1 1 1 ''h1'' ''read'')
                   \<lparr>e_title := ''new title'', e_url := ''new url'', e_content := ''body'',
                    e_author := ''author'', e_reading_time := 3, e_tags := [''tag'']\<rparr>,
                 sample_row 2 1 1 ''h2'' ''unread''],
      Some (1, [''h1'']))"
proof -
  let ?d = "sample_db [sample_row 1 1 1 ''h1'' ''read'', sample_row 2 1 1 ''h2'' ''unread'']"
  have key: "entries_feed_hash_key ?d"
    by (simp add: entries_feed_hash_key_def sample_db_def sample_row_def)
  have r: "sample_row 1 1 1 ''h1'' ''read'' \<in> set (entries ?d)" by (simp add: sample_db_def)
  have f: "e_feed_id (sample_row 1 1 1 ''h1'' ''read'') = 1" by (simp add: sample_row_def)
  have h: "e_hash (sample_row 1 1 1 ''h1'' ''read'') = Hash (sample_entry ''h1'' ''new title'')"
    by (simp add: sample_row_def sample_entry_def)
  show ?thesis
    using refresh_update_preserves [OF key r f h, of appending_store 999 1]
    by (simp add: RefreshFeedEntries_def entryExists_def updateEntry_def update_target_def
        refresh_row_def sql_update_def sample_db_def sample_row_def sample_entry_def
        appending_store_def bind_enclosures_def)
qed

text \<open>
  Claim C2 as stated fails on the change time: the refresh at time 999 gives the stored
  row the new title and leaves its \<open>changed_at\<close> at the old value.
\<close>

theorem refresh_update_changed_at_counterexample:
  "map e_changed_at (entries (fst (snd
      (RefreshFeedEntries appending_store 999 1 1 [sample_entry ''h1'' ''new title''] True
         (sample_db [sample_row 1 1 1 ''h1'' ''read''])))))
     = map e_changed_at (entries (sample_db [sample_row 1 1 1 ''h1'' ''read''])) \<and>
   map e_title (entries (fst (snd
      (RefreshFeedEntries appending_store 999 1 1 [sample_entry ''h1'' ''new title''] True
         (sample_db [sample_row 1 1 1 ''h1'' ''read''])))))
     = [''new title''] \<and>
   map e_title (entries (sample_db [sample_row 1 1 1 ''h1'' ''read''])) = [''old title'']"
  by (simp add: RefreshFeedEntries_def entryExists_def updateEntry_def update_target_def
      refresh_row_def sql_update_def sample_db_def sample_row_def sample_entry_def
      appending_store_def bind_enclosures_def)

end
